theory Spec2Isabelle
  imports Complex_Main "HOL-Library.Sublist" "HOL-Library.Multiset"
begin

section \<open>Session setup form (the SessionSetup component)\<close>

text \<open>
  The component keeps three pieces of React state: the selected routing pattern, the list
  of configured models and the model being typed in. Each handler is a transition on that
  state. JavaScript numbers that carry fractions (the temperature) are rationals here.
\<close>

record ModelConfig =
  id_cfg :: string
  provider :: string
  model_name :: string
  role :: "string option"
  system_prompt :: "string option"
  temperature :: "rat option"
  max_tokens :: "int option"

record CurrentModel =
  provider_cur :: string
  model_name_cur :: string
  role_cur :: string

record SessionSetup =
  routing :: string
  models :: "ModelConfig list"
  currentModel :: CurrentModel

text \<open>Decimal rendering of a number inside a template literal.\<close>

definition digit_char :: "nat \<Rightarrow> char" where
  "digit_char d = ''0123456789'' ! d"

function string_of_nat :: "nat \<Rightarrow> string" where
  "string_of_nat n =
     (if n < 10 then [digit_char n] else string_of_nat (n div 10) @ [digit_char (n mod 10)])"
  by pat_completeness auto
termination
  by (relation "measure (\<lambda>n. n)") auto

declare string_of_nat.simps [simp del]

definition blank_model :: CurrentModel where
  "blank_model = \<lparr>provider_cur = ''ollama'', model_name_cur = [], role_cur = []\<rparr>"

definition initial_setup :: SessionSetup where
  "initial_setup = \<lparr>routing = ''broadcast'', models = [], currentModel = blank_model\<rparr>"

definition setRouting :: "string \<Rightarrow> SessionSetup \<Rightarrow> SessionSetup" where
  "setRouting r s = s\<lparr>routing := r\<rparr>"

definition setCurrentModel :: "CurrentModel \<Rightarrow> SessionSetup \<Rightarrow> SessionSetup" where
  "setCurrentModel c s = s\<lparr>currentModel := c\<rparr>"

definition addModel :: "SessionSetup \<Rightarrow> SessionSetup" where
  "addModel s =
     (if model_name_cur (currentModel s) \<noteq> [] \<and> length (models s) < 5
      then s\<lparr>models := models s @
                 [\<lparr>id_cfg = ''model_'' @ string_of_nat (length (models s) + 1),
                   provider = provider_cur (currentModel s),
                   model_name = model_name_cur (currentModel s),
                   role = Some (role_cur (currentModel s)),
                   system_prompt = None,
                   temperature = Some (7 / 10),
                   max_tokens = None\<rparr>],
              currentModel := blank_model\<rparr>
      else s)"

definition removeModel :: "string \<Rightarrow> SessionSetup \<Rightarrow> SessionSetup" where
  "removeModel x s = s\<lparr>models := filter (\<lambda>m. id_cfg m \<noteq> x) (models s)\<rparr>"

text \<open>
  \<open>handleStart\<close> calls \<open>onStart(routing, models)\<close> when at least one model is configured and
  does nothing otherwise: the result is the argument pair of the call, if it is made.
\<close>

definition handleStart :: "SessionSetup \<Rightarrow> (string \<times> ModelConfig list) option" where
  "handleStart s = (if length (models s) > 0 then Some (routing s, models s) else None)"

text \<open>The user's actions on the form, and a run of them.\<close>

datatype setup_action =
  SetRouting string
  | SetCurrentModel CurrentModel
  | AddModel
  | RemoveModel string

fun setup_step :: "SessionSetup \<Rightarrow> setup_action \<Rightarrow> SessionSetup" where
  "setup_step s (SetRouting r) = setRouting r s"
| "setup_step s (SetCurrentModel c) = setCurrentModel c s"
| "setup_step s AddModel = addModel s"
| "setup_step s (RemoveModel x) = removeModel x s"

definition setup_run :: "SessionSetup \<Rightarrow> setup_action list \<Rightarrow> SessionSetup" where
  "setup_run s acts = foldl setup_step s acts"

definition typed_model :: "string \<Rightarrow> CurrentModel" where
  "typed_model name = \<lparr>provider_cur = ''ollama'', model_name_cur = name, role_cur = []\<rparr>"

section \<open>The chat store and the socket handler of the page\<close>

datatype msg_role = user | assistant

record Message =
  id_msg :: string
  role_msg :: msg_role
  content :: string
  model_id :: "string option"
  timestamp :: string
  tokens :: "int option"
  cost :: "rat option"

datatype status = idle | active | paused

record Session =
  id_session :: "string option"
  routing_pattern :: string
  models_session :: "ModelConfig list"
  coordinator_model_id :: "string option"
  total_tokens :: int
  total_cost :: rat
  status_session :: status

text \<open>The socket in the store is represented by the URL it was opened on.\<close>

record ChatStore =
  session :: Session
  messages :: "Message list"
  isConnected :: bool
  isLoading :: bool
  ws :: "string option"

definition initial_store :: ChatStore where
  "initial_store =
     \<lparr>session = \<lparr>id_session = None, routing_pattern = ''broadcast'', models_session = [],
                  coordinator_model_id = None, total_tokens = 0, total_cost = 0,
                  status_session = idle\<rparr>,
      messages = [], isConnected = False, isLoading = False, ws = None\<rparr>"

definition setSession :: "Session \<Rightarrow> ChatStore \<Rightarrow> ChatStore" where
  "setSession x st = st\<lparr>session := x\<rparr>"

definition addMessage :: "Message \<Rightarrow> ChatStore \<Rightarrow> ChatStore" where
  "addMessage message st = st\<lparr>messages := messages st @ [message]\<rparr>"

definition clearMessages :: "ChatStore \<Rightarrow> ChatStore" where
  "clearMessages st = st\<lparr>messages := []\<rparr>"

definition setConnected :: "bool \<Rightarrow> ChatStore \<Rightarrow> ChatStore" where
  "setConnected b st = st\<lparr>isConnected := b\<rparr>"

definition setLoading :: "bool \<Rightarrow> ChatStore \<Rightarrow> ChatStore" where
  "setLoading b st = st\<lparr>isLoading := b\<rparr>"

definition setWebSocket :: "string option \<Rightarrow> ChatStore \<Rightarrow> ChatStore" where
  "setWebSocket w st = st\<lparr>ws := w\<rparr>"

definition updateSessionStats :: "int \<Rightarrow> rat \<Rightarrow> ChatStore \<Rightarrow> ChatStore" where
  "updateSessionStats tk c st =
     st\<lparr>session := (session st)\<lparr>total_tokens := total_tokens (session st) + tk,
                                  total_cost := total_cost (session st) + c\<rparr>\<rparr>"

text \<open>
  A frame received on the socket, after \<open>JSON.parse\<close>, by the value of its \<open>type\<close> field.
  Fields that the \<open>Message\<close> interface marks optional may be missing from the frame.
  \<open>other_frame\<close> is any frame whose type is none of the four the handler looks for.
\<close>

datatype ws_data =
  user_message_frame string
  | model_response_frame string "string option" string "int option" "rat option"
  | response_complete_frame int rat
  | error_frame string
  | other_frame string

text \<open>
  The handler reads the clock twice: \<open>Date.now()\<close>, here the millisecond count \<open>now\<close>, and
  \<open>new Date().toISOString()\<close>, here the string \<open>isotime\<close>. The console output and the alert of
  the error branch are outside the store.
\<close>

fun onmessage :: "nat \<Rightarrow> string \<Rightarrow> ws_data \<Rightarrow> ChatStore \<Rightarrow> ChatStore" where
  "onmessage now isotime (user_message_frame c) st =
     addMessage \<lparr>id_msg = string_of_nat now, role_msg = user, content = c, model_id = None,
                 timestamp = isotime, tokens = None, cost = None\<rparr> st"
| "onmessage now isotime (model_response_frame c mid ts tk co) st =
     setLoading False
       (addMessage \<lparr>id_msg = string_of_nat now @ ''_'' @
                              (case mid of None \<Rightarrow> ''undefined'' | Some x \<Rightarrow> x),
                    role_msg = assistant, content = c, model_id = mid, timestamp = ts,
                    tokens = tk, cost = co\<rparr> st)"
| "onmessage now isotime (response_complete_frame tk co) st =
     setLoading False (updateSessionStats tk co st)"
| "onmessage now isotime (error_frame m) st = setLoading False st"
| "onmessage now isotime (other_frame t) st = st"

text \<open>A frame together with the two clock readings taken while it is handled.\<close>

type_synonym arrival = "nat \<times> string \<times> ws_data"

fun receive_all :: "ChatStore \<Rightarrow> arrival list \<Rightarrow> ChatStore" where
  "receive_all st [] = st"
| "receive_all st ((now, isotime, d) # rest) = receive_all (onmessage now isotime d st) rest"

text \<open>What the claim speaks of: the frames that carry a message, and the text they carry.\<close>

fun carries_message :: "ws_data \<Rightarrow> bool" where
  "carries_message (user_message_frame c) = True"
| "carries_message (model_response_frame c mid ts tk co) = True"
| "carries_message d = False"

fun author_of :: "ws_data \<Rightarrow> msg_role" where
  "author_of (user_message_frame c) = user"
| "author_of d = assistant"

fun text_of :: "ws_data \<Rightarrow> string" where
  "text_of (user_message_frame c) = c"
| "text_of (model_response_frame c mid ts tk co) = c"
| "text_of d = []"

section \<open>Message routing patterns of the orchestrator\<close>

text \<open>
  The routers are asynchronous Python. A call into a model adapter either returns a
  response or raises; what it does is not decided by the router, so the adapters are
  parameters here: \<open>send model text\<close> is the outcome of \<open>model.send(text, ...)\<close>. The context
  argument of a call only travels to the adapter and is part of that outcome. An exception
  is a value of \<open>py_error\<close>, with \<open>Raised\<close> for whatever an adapter or a helper raises.
\<close>

datatype py_error = ZeroDivisionError | IndexError | KeyError | Raised string

text \<open>Python's class hierarchy puts \<open>ZeroDivisionError\<close> under \<open>ArithmeticError\<close>.\<close>

fun is_ArithmeticError :: "py_error \<Rightarrow> bool" where
  "is_ArithmeticError ZeroDivisionError = True"
| "is_ArithmeticError e = False"

text \<open>The calls a router makes into adapters, in the order in which it issues them.\<close>

datatype ('m, 'r) call =
  Send 'm string
  | Vote 'm "'r list"
  | Synthesize 'm "'r list"

text \<open>
  \<open>asyncio.gather\<close> without \<open>return_exceptions\<close>: every awaitable is started; the results
  come back in the order of the arguments when all of them succeed, and otherwise an
  exception is propagated to the caller. When several awaitables raise, Python propagates
  the one raised first in time; the model takes the first in argument order.
\<close>

fun gather :: "(py_error + 'a) list \<Rightarrow> py_error + 'a list" where
  "gather [] = Inr []"
| "gather (Inl e # rest) = Inl e"
| "gather (Inr a # rest) = (case gather rest of Inl e \<Rightarrow> Inl e | Inr as \<Rightarrow> Inr (a # as))"

text \<open>List subscript with Python's negative indices; out of range raises \<open>IndexError\<close>.\<close>

definition subscript :: "'a list \<Rightarrow> int \<Rightarrow> py_error + 'a" where
  "subscript xs i =
     (if 0 \<le> i \<and> i < int (length xs) then Inr (xs ! nat i)
      else if i < 0 \<and> - int (length xs) \<le> i then Inr (xs ! nat (int (length xs) + i))
      else Inl IndexError)"

text \<open>The elements picked by a list comprehension over indices; the first bad index raises.\<close>

fun subscript_each :: "'a list \<Rightarrow> int list \<Rightarrow> py_error + 'a list" where
  "subscript_each xs [] = Inr []"
| "subscript_each xs (i # rest) =
     (case subscript xs i of
        Inl e \<Rightarrow> Inl e
      | Inr x \<Rightarrow> (case subscript_each xs rest of Inl e \<Rightarrow> Inl e | Inr ys \<Rightarrow> Inr (x # ys)))"

subsection \<open>Broadcast\<close>

text \<open>\<open>format_responses\<close> is not part of the blueprint; it is the parameter \<open>fmt\<close>.\<close>

definition BroadcastRouter_route ::
  "('r list \<Rightarrow> 'o) \<Rightarrow> ('m \<Rightarrow> string \<Rightarrow> py_error + 'r) \<Rightarrow> string \<Rightarrow> 'm list
     \<Rightarrow> ('m, 'r) call list \<times> (py_error + 'o)" where
  "BroadcastRouter_route fmt send user_message active_models =
     (map (\<lambda>model. Send model user_message) active_models,
      case gather (map (\<lambda>model. send model user_message) active_models) of
        Inl e \<Rightarrow> Inl e
      | Inr responses \<Rightarrow> Inr (fmt responses))"

subsection \<open>Coordinator\<close>

text \<open>
  \<open>parse_selection\<close> and the coordinator's \<open>synthesize\<close> are not part of the blueprint and
  are parameters: \<open>parse_selection\<close> returns the selected indices or raises. \<open>repr\<close> is
  Python's rendering of the list of role labels inside the prompt.
\<close>

definition coordinator_prompt :: "(string list \<Rightarrow> string) \<Rightarrow> string \<Rightarrow> string list \<Rightarrow> string" where
  "coordinator_prompt repr user_message roles =
     ''Message: '' @ user_message @ [CHR 0x0A] @
     ''Specialists: '' @ repr roles @ [CHR 0x0A] @
     ''Who should handle this? Return JSON.''"

definition CoordinatorRouter_route ::
  "('r \<Rightarrow> py_error + int list) \<Rightarrow> ('m \<Rightarrow> 'r list \<Rightarrow> py_error + 'o) \<Rightarrow> (string list \<Rightarrow> string)
     \<Rightarrow> ('m \<Rightarrow> string) \<Rightarrow> ('m \<Rightarrow> string \<Rightarrow> py_error + 'r) \<Rightarrow> 'm \<Rightarrow> string \<Rightarrow> 'm list
     \<Rightarrow> ('m, 'r) call list \<times> (py_error + 'o)" where
  "CoordinatorRouter_route parse_selection synthesize repr role_of send coordinator
       user_message specialist_models =
     (let prompt = coordinator_prompt repr user_message (map role_of specialist_models);
          asked = [Send coordinator prompt]
      in case send coordinator prompt of
           Inl e \<Rightarrow> (asked, Inl e)
         | Inr plan \<Rightarrow>
            (case parse_selection plan of
               Inl e \<Rightarrow> (asked, Inl e)
             | Inr selected \<Rightarrow>
                (case subscript_each specialist_models selected of
                   Inl e \<Rightarrow> (asked, Inl e)
                 | Inr chosen \<Rightarrow>
                    (let dispatched = asked @ map (\<lambda>model. Send model user_message) chosen
                     in case gather (map (\<lambda>model. send model user_message) chosen) of
                          Inl e \<Rightarrow> (dispatched, Inl e)
                        | Inr responses \<Rightarrow>
                            (dispatched @ [Synthesize coordinator responses],
                             synthesize coordinator responses)))))"

subsection \<open>Round-robin\<close>

text \<open>
  The router object holds \<open>turn_index\<close>, which starts at 0; \<open>route\<close> returns its new value
  with the outcome. An exception leaves the statements after its origin unexecuted. The
  modulus by the length of an empty list raises \<open>ZeroDivisionError\<close>.
\<close>

definition RoundRobinRouter_route ::
  "('m \<Rightarrow> string \<Rightarrow> py_error + 'r) \<Rightarrow> int \<Rightarrow> string \<Rightarrow> 'm list
     \<Rightarrow> ('m, 'r) call list \<times> (py_error + 'r) \<times> int" where
  "RoundRobinRouter_route send turn_index user_message active_models =
     (if length active_models = 0 then ([], Inl ZeroDivisionError, turn_index)
      else
        (case subscript active_models (turn_index mod int (length active_models)) of
           Inl e \<Rightarrow> ([], Inl e, turn_index)
         | Inr current_model \<Rightarrow>
            (case send current_model user_message of
               Inl e \<Rightarrow> ([Send current_model user_message], Inl e, turn_index)
             | Inr response \<Rightarrow>
                 ([Send current_model user_message], Inr response, turn_index + 1))))"

text \<open>
  Consecutive messages through one router object: the calls made, message by message.
  A message whose call raises does not stop the next message from being routed.
\<close>

fun round_robin_calls ::
  "('m \<Rightarrow> string \<Rightarrow> py_error + 'r) \<Rightarrow> int \<Rightarrow> string list \<Rightarrow> 'm list \<Rightarrow> ('m, 'r) call list" where
  "round_robin_calls send turn_index [] active_models = []"
| "round_robin_calls send turn_index (user_message # later) active_models =
     (case RoundRobinRouter_route send turn_index user_message active_models of
        (calls, outcome, turn_index') \<Rightarrow>
          calls @ round_robin_calls send turn_index' later active_models)"

fun callee :: "('m, 'r) call \<Rightarrow> 'm" where
  "callee (Send model text) = model"
| "callee (Vote model proposals) = model"
| "callee (Synthesize model responses) = model"

subsection \<open>Voting\<close>

text \<open>
  The adapters' \<open>vote\<close> and the router's \<open>tally_votes\<close> are not part of the blueprint;
  \<open>vote model proposals\<close> is the outcome of \<open>model.vote(proposals)\<close> and \<open>tally\<close> stands for
  \<open>tally_votes\<close>.
\<close>

definition VotingRouter_route ::
  "('v list \<Rightarrow> 'r list \<Rightarrow> py_error + 'w) \<Rightarrow> ('m \<Rightarrow> string \<Rightarrow> py_error + 'r)
     \<Rightarrow> ('m \<Rightarrow> 'r list \<Rightarrow> py_error + 'v) \<Rightarrow> string \<Rightarrow> 'm list
     \<Rightarrow> ('m, 'r) call list \<times> (py_error + 'w)" where
  "VotingRouter_route tally send vote user_message active_models =
     (let proposing = map (\<lambda>model. Send model user_message) active_models
      in case gather (map (\<lambda>model. send model user_message) active_models) of
           Inl e \<Rightarrow> (proposing, Inl e)
         | Inr proposals \<Rightarrow>
            (let voting = proposing @ map (\<lambda>model. Vote model proposals) active_models
             in case gather (map (\<lambda>model. vote model proposals) active_models) of
                  Inl e \<Rightarrow> (voting, Inl e)
                | Inr votes \<Rightarrow> (voting, tally votes proposals)))"

section \<open>Session manager\<close>

datatype 'o history_entry = UserMessage string | ModelResponse 'o

text \<open>
  Modelled from the spec: the \<open>ConversationHistory\<close> class, whose methods \<open>send_message\<close>
  calls, is missing from the sources. The spec describes an ordered, append-only log read
  in insertion order, so each method appends one entry.
\<close>

definition add_user_message :: "'o history_entry list \<Rightarrow> string \<Rightarrow> 'o history_entry list" where
  "add_user_message h message = h @ [UserMessage message]"

definition add_model_response :: "'o history_entry list \<Rightarrow> 'o \<Rightarrow> 'o history_entry list" where
  "add_model_response h resp = h @ [ModelResponse resp]"

text \<open>The fields of a session that \<open>send_message\<close> reads or writes.\<close>

record ('m, 'o) Session_mgr =
  id_mgr :: string
  routing_pattern_mgr :: string
  models_mgr :: "'m list"
  history :: "'o history_entry list"

text \<open>
  The manager's dictionary of sessions, the responses handed to \<open>emit_to_frontend\<close> in
  order, and the usage metrics, which only \<open>update_usage_metrics\<close> touches.
\<close>

record ('m, 'o, 'u) SessionManager =
  sessions :: "string \<Rightarrow> ('m, 'o) Session_mgr option"
  frontend :: "(string \<times> 'o) list"
  usage_metrics :: 'u

text \<open>
  \<open>get_router\<close> and \<open>update_usage_metrics\<close> are not part of the blueprint and are
  parameters. \<open>get_router pattern\<close> raises or yields the \<open>route\<close> operation of the router
  for that pattern; what \<open>route\<close> returns is the sequence that the logging loop runs over.
  A missing session identifier raises \<open>KeyError\<close>. The user message is logged before
  routing, so it stays in the history when routing raises.
\<close>

definition send_message ::
  "(string \<Rightarrow> py_error + (string \<Rightarrow> 'm list \<Rightarrow> py_error + 'o list)) \<Rightarrow> ('u \<Rightarrow> string \<Rightarrow> 'o list \<Rightarrow> 'u)
     \<Rightarrow> ('m, 'o, 'u) SessionManager \<Rightarrow> string \<Rightarrow> string
     \<Rightarrow> (py_error + 'o list) \<times> ('m, 'o, 'u) SessionManager" where
  "send_message get_router update_usage_metrics mgr session_id message =
     (case sessions mgr session_id of
        None \<Rightarrow> (Inl KeyError, mgr)
      | Some sess \<Rightarrow>
         (case get_router (routing_pattern_mgr sess) of
            Inl e \<Rightarrow> (Inl e, mgr)
          | Inr route \<Rightarrow>
             (let logged = sess\<lparr>history := add_user_message (history sess) message\<rparr>
              in case route message (models_mgr sess) of
                   Inl e \<Rightarrow> (Inl e, mgr\<lparr>sessions := (sessions mgr)(session_id \<mapsto> logged)\<rparr>)
                 | Inr responses \<Rightarrow>
                     (Inr responses,
                      mgr\<lparr>sessions := (sessions mgr)(session_id \<mapsto>
                             logged\<lparr>history := foldl add_model_response (history logged) responses\<rparr>),
                          frontend := frontend mgr @ map (Pair session_id) responses,
                          usage_metrics := update_usage_metrics (usage_metrics mgr) session_id responses\<rparr>))))"

section \<open>Cost estimation and the budget check\<close>

text \<open>
  The Azure adapter's \<open>estimate_cost\<close>: the pricing table maps a deployment name to its
  rates, and a deployment without an entry is priced at zero. Python's floats are
  rationals here.
\<close>

record rate =
  input_rate :: rat
  output_rate :: rat

definition estimate_cost :: "(string \<Rightarrow> rate option) \<Rightarrow> string \<Rightarrow> int \<Rightarrow> rat" where
  "estimate_cost pricing deployment_name tk =
     (let r = (case pricing deployment_name of
                 None \<Rightarrow> \<lparr>input_rate = 0, output_rate = 0\<rparr>
               | Some x \<Rightarrow> x)
      in (of_int tk / 1000) * output_rate r)"

text \<open>The per-endpoint events of the spec's event stream.\<close>

datatype 'r event =
  response string 'r
  | failure string string

fun error_kind :: "py_error \<Rightarrow> string" where
  "error_kind ZeroDivisionError = ''ZeroDivisionError''"
| "error_kind IndexError = ''IndexError''"
| "error_kind KeyError = ''KeyError''"
| "error_kind (Raised k) = k"

text \<open>
  Modelled from the spec: the pre-dispatch budget check. The sources declare the session's
  \<open>cost_limit\<close> and the adapters' \<open>estimate_cost\<close>, but the code that dispatches under a cost
  ceiling is missing. By the spec, a dispatch whose estimate added to the session's
  cumulative cost would exceed the ceiling is refused with a failure event of kind
  \<open>budget_exceeded\<close> instead of being attempted; a session without a ceiling is never refused.
\<close>

definition over_budget :: "rat option \<Rightarrow> rat \<Rightarrow> rat \<Rightarrow> bool" where
  "over_budget limit spent estimate =
     (case limit of None \<Rightarrow> False | Some c \<Rightarrow> c < spent + estimate)"

definition dispatch_checked ::
  "rat option \<Rightarrow> rat \<Rightarrow> rat \<Rightarrow> ('m \<Rightarrow> string) \<Rightarrow> ('m \<Rightarrow> string \<Rightarrow> py_error + 'r) \<Rightarrow> 'm \<Rightarrow> string
     \<Rightarrow> ('m, 'r) call list \<times> 'r event" where
  "dispatch_checked limit spent estimate ident send endpoint text =
     (if over_budget limit spent estimate
      then ([], failure (ident endpoint) ''budget_exceeded'')
      else ([Send endpoint text],
            case send endpoint text of
              Inl e \<Rightarrow> failure (ident endpoint) (error_kind e)
            | Inr r \<Rightarrow> response (ident endpoint) r))"

section \<open>Tallying votes\<close>

text \<open>
  Modelled from the spec: \<open>tally_votes\<close>, which the voting router calls and the sources do
  not define. Proposal \<open>i\<close> is the one written by endpoint \<open>i\<close> of the original ordering,
  and a vote names a proposal by that position. By the spec the proposal with the most
  votes wins, and among proposals tied for the most votes the one whose author has the
  lowest index wins. The scan runs over the positions in increasing order and replaces
  the leader only on strictly more votes. Without proposals there is no winner.
\<close>

definition votes_for :: "nat list \<Rightarrow> nat \<Rightarrow> nat" where
  "votes_for votes i = count_list votes i"

fun tally_scan :: "nat list \<Rightarrow> nat \<Rightarrow> nat list \<Rightarrow> nat" where
  "tally_scan votes best [] = best"
| "tally_scan votes best (i # rest) =
     tally_scan votes (if votes_for votes best < votes_for votes i then i else best) rest"

definition tally_votes :: "nat list \<Rightarrow> 'r list \<Rightarrow> nat option" where
  "tally_votes votes proposals =
     (if proposals = [] then None else Some (tally_scan votes 0 [1..<length proposals]))"

section \<open>Vocabulary of the claims and sample inputs\<close>

text \<open>The proposals of the endpoints whose proposal call succeeded, in endpoint order.\<close>

definition successful_proposals :: "('m \<Rightarrow> string \<Rightarrow> py_error + 'r) \<Rightarrow> string \<Rightarrow> 'm list \<Rightarrow> 'r list" where
  "successful_proposals send text ms =
     concat (map (\<lambda>m. case send m text of Inl e \<Rightarrow> [] | Inr r \<Rightarrow> [r]) ms)"

text \<open>Sample adapters: endpoint \<open>B\<close> times out, every other endpoint answers.\<close>

definition flaky_send :: "string \<Rightarrow> string \<Rightarrow> py_error + string" where
  "flaky_send model text =
     (if model = ''B'' then Inl (Raised ''timeout'') else Inr (model @ '': '' @ text))"

definition steady_send :: "string \<Rightarrow> string \<Rightarrow> py_error + string" where
  "steady_send model text = Inr (model @ '': '' @ text)"

definition first_vote :: "string \<Rightarrow> string list \<Rightarrow> py_error + nat" where
  "first_vote model proposals = Inr 0"

definition index_tally :: "nat list \<Rightarrow> string list \<Rightarrow> py_error + nat" where
  "index_tally votes proposals =
     (case tally_votes votes proposals of None \<Rightarrow> Inl IndexError | Some w \<Rightarrow> Inr w)"

definition broken_parse :: "string \<Rightarrow> py_error + int list" where
  "broken_parse plan = Inl (Raised ''JSONDecodeError'')"

definition join_synthesize :: "string \<Rightarrow> string list \<Rightarrow> py_error + string" where
  "join_synthesize model responses = Inr (concat responses)"

definition broadcast_only :: "string \<Rightarrow> py_error + (string \<Rightarrow> string list \<Rightarrow> py_error + string list)" where
  "broadcast_only pattern = Inr (\<lambda>text ms. snd (BroadcastRouter_route id flaky_send text ms))"

definition count_usage :: "nat \<Rightarrow> string \<Rightarrow> string list \<Rightarrow> nat" where
  "count_usage u session_id responses = u + length responses"

definition two_model_manager :: "(string, string, nat) SessionManager" where
  "two_model_manager =
     \<lparr>sessions = [''s1'' \<mapsto> \<lparr>id_mgr = ''s1'', routing_pattern_mgr = ''broadcast'',
                             models_mgr = [''A'', ''B''], history = []\<rparr>],
      frontend = [], usage_metrics = 0\<rparr>"

definition sample_pricing :: "string \<Rightarrow> rate option" where
  "sample_pricing = [''gpt-4'' \<mapsto> \<lparr>input_rate = 3 / 100, output_rate = 1 / 10\<rparr>]"

text \<open>
  Consecutive messages of one session through \<open>send_message\<close>. Each message comes with
  the routers as they behave when it is handled; a message whose handling raises does not
  stop the next one from being handled.
\<close>

fun send_messages ::
  "('u \<Rightarrow> string \<Rightarrow> 'o list \<Rightarrow> 'u) \<Rightarrow> ('m, 'o, 'u) SessionManager \<Rightarrow> string
     \<Rightarrow> ((string \<Rightarrow> py_error + (string \<Rightarrow> 'm list \<Rightarrow> py_error + 'o list)) \<times> string) list
     \<Rightarrow> ('m, 'o, 'u) SessionManager" where
  "send_messages update_usage_metrics mgr session_id [] = mgr"
| "send_messages update_usage_metrics mgr session_id ((get_router, message) # later) =
     send_messages update_usage_metrics
       (snd (send_message get_router update_usage_metrics mgr session_id message)) session_id later"

text \<open>
  What one handled message contributes to the history in arrival order: the user message,
  then the responses in the order in which the router returned them. Nothing is contributed
  when no router is found for the pattern, and only the user message when routing raises.
\<close>

definition turn_entries ::
  "('m, 'o) Session_mgr
     \<Rightarrow> (string \<Rightarrow> py_error + (string \<Rightarrow> 'm list \<Rightarrow> py_error + 'o list)) \<times> string
     \<Rightarrow> 'o history_entry list" where
  "turn_entries sess turn =
     (case fst turn (routing_pattern_mgr sess) of
        Inl e \<Rightarrow> []
      | Inr route \<Rightarrow>
          UserMessage (snd turn) #
          (case route (snd turn) (models_mgr sess) of
             Inl e \<Rightarrow> []
           | Inr responses \<Rightarrow> map ModelResponse responses))"

definition steady_broadcast :: "string \<Rightarrow> py_error + (string \<Rightarrow> string list \<Rightarrow> py_error + string list)" where
  "steady_broadcast pattern = Inr (\<lambda>text ms. snd (BroadcastRouter_route id steady_send text ms))"

section \<open>Facts about the helpers\<close>

lemma gather_Inr: "gather xs = Inr ys \<Longrightarrow> xs = map Inr ys"
  by (induction xs arbitrary: ys rule: gather.induct) (auto split: sum.splits)

lemma gather_all_ok: "\<forall>x\<in>set xs. \<not> isl x \<Longrightarrow> gather xs = Inr (map projr xs)"
  by (induction xs rule: gather.induct) auto

lemma gather_some_fail: "\<exists>x\<in>set xs. isl x \<Longrightarrow> isl (gather xs)"
  by (induction xs rule: gather.induct) (auto split: sum.splits)

lemma subscript_mod:
  "ms \<noteq> [] \<Longrightarrow> subscript ms (ti mod int (length ms)) = Inr (ms ! nat (ti mod int (length ms)))"
proof -
  assume "ms \<noteq> []"
  then have pos: "0 < int (length ms)" by simp
  have "0 \<le> ti mod int (length ms)" "ti mod int (length ms) < int (length ms)"
    using pos by (rule pos_mod_sign, rule pos_mod_bound)
  then show ?thesis by (simp add: subscript_def)
qed

lemma route_nonempty:
  "ms \<noteq> [] \<Longrightarrow> RoundRobinRouter_route send ti text ms =
     ([Send (ms ! nat (ti mod int (length ms))) text],
      send (ms ! nat (ti mod int (length ms))) text,
      if isl (send (ms ! nat (ti mod int (length ms))) text) then ti else ti + 1)"
  by (auto simp add: RoundRobinRouter_route_def subscript_mod split: sum.splits)

lemma upt_0_Suc: "[0..<Suc n] = 0 # map Suc [0..<n]"
  by (simp add: upt_conv_Cons map_Suc_upt del: upt_Suc)

lemma round_robin_cycle:
  assumes "ms \<noteq> []" and "\<forall>m\<in>set ms. \<forall>t\<in>set texts. \<not> isl (send m t)"
  shows "map callee (round_robin_calls send ti texts ms) =
         map (\<lambda>k. ms ! nat ((ti + int k) mod int (length ms))) [0..<length texts]"
  using assms(2)
proof (induction texts arbitrary: ti)
  case Nil
  then show ?case by simp
next
  case (Cons t later)
  have pos: "0 < int (length ms)" using assms(1) by simp
  have "0 \<le> ti mod int (length ms)" "ti mod int (length ms) < int (length ms)"
    using pos by (rule pos_mod_sign, rule pos_mod_bound)
  then have in_range: "nat (ti mod int (length ms)) < length ms"
    by linarith
  then have ok: "\<not> isl (send (ms ! nat (ti mod int (length ms))) t)"
    using Cons.prems by simp
  have rest: "map callee (round_robin_calls send (ti + 1) later ms) =
              map (\<lambda>k. ms ! nat ((ti + 1 + int k) mod int (length ms))) [0..<length later]"
    using Cons.IH [of "ti + 1"] Cons.prems by simp
  have shift: "map (\<lambda>k. ms ! nat ((ti + int k) mod int (length ms))) [0..<length (t # later)] =
               ms ! nat (ti mod int (length ms)) #
               map (\<lambda>k. ms ! nat ((ti + 1 + int k) mod int (length ms))) [0..<length later]"
    by (simp add: upt_0_Suc comp_def add.assoc del: upt_Suc)
  show ?case
    unfolding shift
    using ok rest by (simp add: route_nonempty [OF assms(1)])
qed

lemma successful_all:
  "gather (map (\<lambda>m. send m text) ms) = Inr ps \<Longrightarrow>
   successful_proposals send text ms = ps \<and> (\<forall>m\<in>set ms. \<not> isl (send m text))"
proof (induction ms arbitrary: ps)
  case Nil
  then show ?case by (simp add: successful_proposals_def)
next
  case (Cons m ms)
  then show ?case
    by (cases "send m text") (auto simp add: successful_proposals_def split: sum.splits)
qed

text \<open>A failed proposal call ends a voting operation before anyone is asked to vote.\<close>

lemma voting_failed_proposal_no_votes:
  "\<exists>m\<in>set ms. isl (send m text) \<Longrightarrow>
   fst (VotingRouter_route tally send vote text ms) = map (\<lambda>m. Send m text) ms \<and>
   isl (snd (VotingRouter_route tally send vote text ms))"
proof -
  assume "\<exists>m\<in>set ms. isl (send m text)"
  then have "isl (gather (map (\<lambda>m. send m text) ms))"
    by (intro gather_some_fail) simp
  then show ?thesis
    by (auto simp add: VotingRouter_route_def Let_def split: sum.splits)
qed

lemma tally_scan_member: "tally_scan v b is \<in> insert b (set is)"
  by (induction "is" arbitrary: b) auto

lemma tally_scan_max: "j \<in> insert b (set is) \<Longrightarrow> votes_for v j \<le> votes_for v (tally_scan v b is)"
proof (induction "is" arbitrary: b j)
  case Nil
  then show ?case by simp
next
  case (Cons i rest)
  let ?b = "if votes_for v b < votes_for v i then i else b"
  have lead: "votes_for v b \<le> votes_for v ?b" "votes_for v i \<le> votes_for v ?b"
    by auto
  have up: "votes_for v ?b \<le> votes_for v (tally_scan v ?b rest)"
    using Cons.IH [of ?b ?b] by simp
  from Cons.prems consider "j = b" | "j = i" | "j \<in> set rest" by auto
  then show ?case
  proof cases
    case 1
    then show ?thesis using lead(1) up by simp
  next
    case 2
    then show ?thesis using lead(2) up by simp
  next
    case 3
    then show ?thesis using Cons.IH [of j ?b] by simp
  qed
qed

lemma tally_scan_least:
  "sorted_wrt (<) (b # is) \<Longrightarrow> j \<in> insert b (set is) \<Longrightarrow>
   votes_for v j = votes_for v (tally_scan v b is) \<Longrightarrow> tally_scan v b is \<le> j"
proof (induction "is" arbitrary: b j)
  case Nil
  then show ?case by simp
next
  case (Cons i rest)
  have bi: "b < i" and brest: "\<forall>x\<in>set rest. b < x" and irest: "\<forall>x\<in>set rest. i < x"
    and srest: "sorted_wrt (<) rest"
    using Cons.prems(1) by auto
  show ?case
  proof (cases "votes_for v b < votes_for v i")
    case True
    then have res: "tally_scan v b (i # rest) = tally_scan v i rest" by simp
    have si: "sorted_wrt (<) (i # rest)" using irest srest by simp
    have imax: "votes_for v i \<le> votes_for v (tally_scan v i rest)"
      by (rule tally_scan_max) simp
    from Cons.prems(2) consider "j = b" | "j \<in> insert i (set rest)" by auto
    then show ?thesis
    proof cases
      case 1
      then show ?thesis using True imax Cons.prems(3) res by simp
    next
      case 2
      then show ?thesis using Cons.IH [OF si 2] Cons.prems(3) res by simp
    qed
  next
    case False
    then have res: "tally_scan v b (i # rest) = tally_scan v b rest" by simp
    have sb: "sorted_wrt (<) (b # rest)" using brest srest by simp
    have bmax: "votes_for v b \<le> votes_for v (tally_scan v b rest)"
      by (rule tally_scan_max) simp
    from Cons.prems(2) consider "j = i" | "j \<in> insert b (set rest)" by auto
    then show ?thesis
    proof cases
      case 1
      then have tie: "votes_for v b = votes_for v (tally_scan v b rest)"
        using False bmax Cons.prems(3) res by simp
      have "tally_scan v b rest \<le> b"
        by (rule Cons.IH [OF sb _ tie]) simp
      then show ?thesis using bi 1 res by simp
    next
      case 2
      then show ?thesis using Cons.IH [OF sb 2] Cons.prems(3) res by simp
    qed
  qed
qed

lemma votes_for_mset: "mset v' = mset v \<Longrightarrow> votes_for v' i = votes_for v i"
proof -
  assume "mset v' = mset v"
  then have "count (mset v') i = count (mset v) i" by simp
  then show ?thesis by (simp add: votes_for_def count_mset)
qed

lemma tally_scan_cong:
  "(\<And>i. votes_for v' i = votes_for v i) \<Longrightarrow> tally_scan v' b is = tally_scan v b is"
  by (induction "is" arbitrary: b) simp_all

lemma positions: "n \<noteq> 0 \<Longrightarrow> insert 0 (set [1..<n]) = {..<n}"
  by auto

lemma onmessage_appends:
  "\<exists>new. messages (onmessage now isotime d st) = messages st @ new \<and>
     map (\<lambda>m. (role_msg m, content m)) new =
     map (\<lambda>d. (author_of d, text_of d)) (filter carries_message [d])"
  by (cases d) (simp_all add: addMessage_def setLoading_def updateSessionStats_def)

lemma receive_all_appends:
  "\<exists>new. messages (receive_all st arrivals) = messages st @ new \<and>
     map (\<lambda>m. (role_msg m, content m)) new =
     map (\<lambda>d. (author_of d, text_of d)) (filter carries_message (map (\<lambda>a. snd (snd a)) arrivals))"
proof (induction arrivals arbitrary: st)
  case Nil
  then show ?case by simp
next
  case (Cons a arrivals)
  obtain now isotime d where a: "a = (now, isotime, d)" by (cases a) auto
  from onmessage_appends [of now isotime d st] obtain n1 where
    n1: "messages (onmessage now isotime d st) = messages st @ n1"
      "map (\<lambda>m. (role_msg m, content m)) n1 =
       map (\<lambda>d. (author_of d, text_of d)) (filter carries_message [d])"
    by blast
  from Cons.IH [of "onmessage now isotime d st"] obtain n2 where
    n2: "messages (receive_all (onmessage now isotime d st) arrivals) =
         messages (onmessage now isotime d st) @ n2"
      "map (\<lambda>m. (role_msg m, content m)) n2 =
       map (\<lambda>d. (author_of d, text_of d))
         (filter carries_message (map (\<lambda>a. snd (snd a)) arrivals))"
    by blast
  have "messages (receive_all st (a # arrivals)) = messages st @ (n1 @ n2)"
    using n1(1) n2(1) a by simp
  moreover have "map (\<lambda>m. (role_msg m, content m)) (n1 @ n2) =
     map (\<lambda>d. (author_of d, text_of d))
       (filter carries_message (map (\<lambda>a. snd (snd a)) (a # arrivals)))"
    using n1(2) n2(2) a by simp
  ultimately show ?case by blast
qed

lemma foldl_add_model_response: "foldl add_model_response h rs = h @ map ModelResponse rs"
  by (induction rs arbitrary: h) (simp_all add: add_model_response_def)

text \<open>
  The session manager logs the user message first and then the responses in the order in
  which the router returned them; the session's pattern and models stay as they were.
\<close>

lemma send_message_session:
  "sessions mgr sid = Some sess \<Longrightarrow>
   sessions (snd (send_message get_router upd mgr sid message)) sid =
     Some (sess\<lparr>history := history sess @ turn_entries sess (get_router, message)\<rparr>)"
  by (simp add: send_message_def turn_entries_def Let_def foldl_add_model_response
      add_user_message_def split: sum.splits)

lemma turn_entries_history:
  "turn_entries (sess\<lparr>history := h\<rparr>) turn = turn_entries sess turn"
  by (simp add: turn_entries_def split: sum.splits)

lemma send_messages_session:
  "sessions mgr sid = Some sess \<Longrightarrow>
   sessions (send_messages upd mgr sid turns) sid =
     Some (sess\<lparr>history := history sess @ concat (map (turn_entries sess) turns)\<rparr>)"
proof (induction turns arbitrary: mgr sess)
  case Nil
  then show ?case by simp
next
  case (Cons turn later)
  obtain get_router message where turn: "turn = (get_router, message)" by (cases turn) auto
  let ?sess = "sess\<lparr>history := history sess @ turn_entries sess (get_router, message)\<rparr>"
  have step: "sessions (snd (send_message get_router upd mgr sid message)) sid = Some ?sess"
    using Cons.prems by (rule send_message_session)
  show ?case
    using Cons.IH [OF step] turn by (simp add: turn_entries_history)
qed

text \<open>The form never holds more than five models, and a session starts with at least one.\<close>

lemma setup_step_at_most_five:
  assumes "length (models s) \<le> 5"
  shows "length (models (setup_step s a)) \<le> 5"
proof (cases a)
  case (RemoveModel x)
  have "length (filter (\<lambda>m. id_cfg m \<noteq> x) (models s)) \<le> 5"
    by (rule le_trans [OF length_filter_le assms])
  then show ?thesis using RemoveModel by (simp add: removeModel_def)
qed (use assms in \<open>auto simp add: setRouting_def setCurrentModel_def addModel_def\<close>)

lemma setup_run_at_most_five: "length (models s) \<le> 5 \<Longrightarrow> length (models (setup_run s acts)) \<le> 5"
  unfolding setup_run_def
  by (induction acts arbitrary: s) (simp_all add: setup_step_at_most_five)

lemma handleStart_models: "handleStart s = Some (r, ms) \<Longrightarrow> ms \<noteq> [] \<and> ms = models s \<and> r = routing s"
  by (auto simp add: handleStart_def split: if_splits)

section \<open>Broadcast: one failing call fails the whole operation\<close>

text \<open>
  Claim C1, as amended. A broadcast over \<open>N\<close> endpoints calls every endpoint once. When all
  \<open>N\<close> calls succeed, the router returns, through \<open>format_responses\<close>, exactly the \<open>N\<close>
  responses, the i-th being the response of the i-th endpoint. When any call fails, the
  operation as a whole fails with an error and yields no response for any endpoint.
\<close>

theorem broadcast_all_or_nothing:
  "fst (BroadcastRouter_route fmt send text ms) = map (\<lambda>m. Send m text) ms \<and>
   ((\<forall>m\<in>set ms. \<not> isl (send m text)) \<longrightarrow>
      snd (BroadcastRouter_route fmt send text ms) = Inr (fmt (map (\<lambda>m. projr (send m text)) ms))) \<and>
   ((\<exists>m\<in>set ms. isl (send m text)) \<longrightarrow> isl (snd (BroadcastRouter_route fmt send text ms)))"
proof (intro conjI impI)
  show "fst (BroadcastRouter_route fmt send text ms) = map (\<lambda>m. Send m text) ms"
    by (simp add: BroadcastRouter_route_def)
next
  assume "\<forall>m\<in>set ms. \<not> isl (send m text)"
  then have "gather (map (\<lambda>m. send m text) ms) = Inr (map projr (map (\<lambda>m. send m text) ms))"
    by (intro gather_all_ok) simp
  then show "snd (BroadcastRouter_route fmt send text ms) = Inr (fmt (map (\<lambda>m. projr (send m text)) ms))"
    by (simp add: BroadcastRouter_route_def comp_def)
next
  assume "\<exists>m\<in>set ms. isl (send m text)"
  then have "isl (gather (map (\<lambda>m. send m text) ms))"
    by (intro gather_some_fail) simp
  then show "isl (snd (BroadcastRouter_route fmt send text ms))"
    by (auto simp add: BroadcastRouter_route_def split: sum.splits)
qed

text \<open>Both cases at two endpoints: all answer, and endpoint \<open>B\<close> times out.\<close>

theorem broadcast_all_or_nothing_witness:
  "snd (BroadcastRouter_route id steady_send ''hi'' [''A'', ''B'']) = Inr [''A: hi'', ''B: hi''] \<and>
   isl (snd (BroadcastRouter_route id flaky_send ''hi'' [''A'', ''B'']))"
  using broadcast_all_or_nothing [of id steady_send "''hi''" "[''A'', ''B'']"]
    broadcast_all_or_nothing [of id flaky_send "''hi''" "[''A'', ''B'']"]
  by (simp add: steady_send_def flaky_send_def)

text \<open>
  Claim C1 as stated fails: with two endpoints of which \<open>B\<close> times out, the router raises
  and the session manager emits nothing, so there are no events where the claim counts two.
\<close>

theorem broadcast_failed_call_counterexample:
  "snd (BroadcastRouter_route id flaky_send ''hi'' [''A'', ''B'']) = Inl (Raised ''timeout'') \<and>
   frontend (snd (send_message broadcast_only count_usage two_model_manager ''s1'' ''hi'')) = []"
  by (simp add: BroadcastRouter_route_def flaky_send_def send_message_def broadcast_only_def
      two_model_manager_def)

section \<open>Round-robin: the cursor moves only after a successful call\<close>

text \<open>
  Claim C2, as amended. On a non-empty endpoint list a round-robin operation calls exactly
  one endpoint, the one at position \<open>turn_index mod len\<close>. The cursor is advanced by one
  when that call succeeds and is left where it is when the call fails. When no call fails,
  consecutive messages go to consecutive endpoints, cyclically; for three endpoints and
  four messages the order is first, second, third, first.
\<close>

theorem round_robin_cursor:
  "ms \<noteq> [] \<longrightarrow>
     fst (RoundRobinRouter_route send ti text ms) = [Send (ms ! nat (ti mod int (length ms))) text] \<and>
     snd (snd (RoundRobinRouter_route send ti text ms)) =
       (if isl (send (ms ! nat (ti mod int (length ms))) text) then ti else ti + 1) \<and>
     ((\<forall>m\<in>set ms. \<forall>t\<in>set texts. \<not> isl (send m t)) \<longrightarrow>
        map callee (round_robin_calls send ti texts ms) =
        map (\<lambda>k. ms ! nat ((ti + int k) mod int (length ms))) [0..<length texts])"
  using round_robin_cycle [of ms texts send ti] by (simp add: route_nonempty)

text \<open>Three endpoints: a successful call, a failed call, and four messages in a row.\<close>

theorem round_robin_cursor_witness:
  "fst (RoundRobinRouter_route steady_send 0 ''m1'' [''A'', ''B'', ''C'']) = [Send ''A'' ''m1''] \<and>
   snd (snd (RoundRobinRouter_route steady_send 0 ''m1'' [''A'', ''B'', ''C''])) = 1 \<and>
   snd (snd (RoundRobinRouter_route flaky_send 1 ''m2'' [''A'', ''B'', ''C''])) = 1 \<and>
   map callee (round_robin_calls steady_send 0 [''m1'', ''m2'', ''m3'', ''m4''] [''A'', ''B'', ''C''])
     = [''A'', ''B'', ''C'', ''A'']"
  using round_robin_cursor [of "[''A'', ''B'', ''C'']" steady_send 0 "''m1''" "[''m1'', ''m2'', ''m3'', ''m4'']"]
    round_robin_cursor [of "[''A'', ''B'', ''C'']" flaky_send 1 "''m2''" "[]"]
  by (simp add: steady_send_def flaky_send_def upt_rec [of 0] upt_rec [of 1] upt_rec [of 2] upt_rec [of 3])

text \<open>
  Claim C2 as stated fails: when endpoint \<open>B\<close> fails, the cursor stays on it, and four
  messages go to \<open>A, B, B, B\<close> instead of \<open>A, B, C, A\<close>.
\<close>

theorem round_robin_failure_counterexample:
  "map callee (round_robin_calls flaky_send 0 [''m1'', ''m2'', ''m3'', ''m4''] [''A'', ''B'', ''C''])
     = [''A'', ''B'', ''B'', ''B''] \<and>
   snd (snd (RoundRobinRouter_route flaky_send 1 ''m2'' [''A'', ''B'', ''C''])) = 1"
  by (simp add: RoundRobinRouter_route_def subscript_def flaky_send_def)

section \<open>Round-robin on an empty endpoint list\<close>

text \<open>
  Claim C7, as amended. A round-robin operation on an empty endpoint list fails at once
  with an error, before any adapter call and without moving the cursor; it never returns
  normally. The setup form makes no \<open>onStart\<close> call exactly when no model is configured,
  so an empty list does not reach routing from the form.
\<close>

theorem round_robin_empty_fails:
  "fst (RoundRobinRouter_route send ti text []) = [] \<and>
   isl (fst (snd (RoundRobinRouter_route send ti text []))) \<and>
   snd (snd (RoundRobinRouter_route send ti text [])) = ti \<and>
   (handleStart s = None) = (models s = [])"
  by (simp add: RoundRobinRouter_route_def handleStart_def)

text \<open>
  Claim C7 as stated fails: the error raised on an empty list is an arithmetic error, not
  a configuration error.
\<close>

theorem round_robin_empty_counterexample:
  "snd (RoundRobinRouter_route steady_send 0 ''hi'' []) = (Inl ZeroDivisionError, 0) \<and>
   is_ArithmeticError ZeroDivisionError"
  by (simp add: RoundRobinRouter_route_def)

section \<open>Coordinator: an unparsable selection fails the turn\<close>

text \<open>
  Claim C4, as amended. When the coordinator answers and its selection payload fails to
  parse, that is, \<open>parse_selection\<close> raises, the turn fails with that error: the coordinator
  is the only endpoint called and no specialist is dispatched.
\<close>

theorem coordinator_parse_failure_propagates:
  "send coordinator (coordinator_prompt repr text (map role_of ms)) = Inr plan \<and>
   parse_selection plan = Inl e \<longrightarrow>
     CoordinatorRouter_route parse_selection synthesize repr role_of send coordinator text ms =
       ([Send coordinator (coordinator_prompt repr text (map role_of ms))], Inl e)"
  by (simp add: CoordinatorRouter_route_def Let_def)

text \<open>Coordinator \<open>K\<close> with specialists \<open>A\<close> and \<open>C\<close> and a parser that rejects the plan.\<close>

theorem coordinator_parse_failure_propagates_witness:
  "CoordinatorRouter_route broken_parse join_synthesize concat id steady_send ''K'' ''hi'' [''A'', ''C''] =
     ([Send ''K'' (coordinator_prompt concat ''hi'' [''A'', ''C''])], Inl (Raised ''JSONDecodeError''))"
  using coordinator_parse_failure_propagates [of steady_send "''K''" concat "''hi''" id "[''A'', ''C'']"
      "''K: '' @ coordinator_prompt concat ''hi'' [''A'', ''C'']" broken_parse "Raised ''JSONDecodeError''" join_synthesize]
  by (simp add: steady_send_def broken_parse_def)

text \<open>
  Claim C4 as stated fails: with a payload that does not parse the turn fails, and of the
  endpoints only the coordinator is called; neither specialist is dispatched.
\<close>

theorem coordinator_parse_failure_counterexample:
  "snd (CoordinatorRouter_route broken_parse join_synthesize concat id steady_send ''K'' ''hi'' [''A'', ''C''])
     = Inl (Raised ''JSONDecodeError'') \<and>
   map callee (fst (CoordinatorRouter_route broken_parse join_synthesize concat id steady_send ''K'' ''hi''
     [''A'', ''C''])) = [''K'']"
  by (simp add: CoordinatorRouter_route_def Let_def steady_send_def broken_parse_def)

section \<open>Voting: who is asked to vote, and on what\<close>

text \<open>
  Claim C6, as amended. In a voting operation every endpoint is asked to propose. The
  vote takes place only when every proposal call succeeded: then every endpoint is asked
  to vote, and each voter is handed exactly the successful proposals, which are the
  proposals of all endpoints in endpoint order. When any proposal call fails, the
  operation fails as a whole and no endpoint is asked to vote, those that proposed
  successfully included.
\<close>

theorem voting_all_or_none_vote:
  "fst (VotingRouter_route tally send vote text ms) =
     map (\<lambda>m. Send m text) ms @
     (if \<exists>m\<in>set ms. isl (send m text) then []
      else map (\<lambda>m. Vote m (successful_proposals send text ms)) ms) \<and>
   ((\<exists>m\<in>set ms. isl (send m text)) \<longrightarrow> isl (snd (VotingRouter_route tally send vote text ms))) \<and>
   ((\<forall>m\<in>set ms. \<not> isl (send m text)) \<longrightarrow>
      successful_proposals send text ms = map (\<lambda>m. projr (send m text)) ms)"
proof (cases "\<exists>m\<in>set ms. isl (send m text)")
  case True
  then show ?thesis using voting_failed_proposal_no_votes [of ms send "text" tally vote] by auto
next
  case False
  then have ok: "\<forall>x\<in>set (map (\<lambda>m. send m text) ms). \<not> isl x" by simp
  have g: "gather (map (\<lambda>m. send m text) ms) = Inr (map (\<lambda>m. projr (send m text)) ms)"
    using gather_all_ok [OF ok] by (simp add: comp_def)
  from successful_all [of send "text" ms "map (\<lambda>m. projr (send m text)) ms"] g
  have sp: "successful_proposals send text ms = map (\<lambda>m. projr (send m text)) ms" by simp
  have "fst (VotingRouter_route tally send vote text ms) =
     map (\<lambda>m. Send m text) ms @ map (\<lambda>m. Vote m (map (\<lambda>m. projr (send m text)) ms)) ms"
    using g by (simp add: VotingRouter_route_def Let_def split: sum.splits)
  then show ?thesis using False sp by simp
qed

text \<open>
  Two endpoints that both propose and then both vote on both proposals; and three
  endpoints of which \<open>B\<close> times out, where the calls end with the proposals.
\<close>

theorem voting_all_or_none_vote_witness:
  "fst (VotingRouter_route index_tally steady_send first_vote ''hi'' [''A'', ''C'']) =
     [Send ''A'' ''hi'', Send ''C'' ''hi'',
      Vote ''A'' [''A: hi'', ''C: hi''], Vote ''C'' [''A: hi'', ''C: hi'']] \<and>
   fst (VotingRouter_route index_tally flaky_send first_vote ''hi'' [''A'', ''B'', ''C'']) =
     [Send ''A'' ''hi'', Send ''B'' ''hi'', Send ''C'' ''hi''] \<and>
   isl (snd (VotingRouter_route index_tally flaky_send first_vote ''hi'' [''A'', ''B'', ''C'']))"
  using voting_all_or_none_vote [of index_tally steady_send first_vote "''hi''" "[''A'', ''C'']"]
    voting_all_or_none_vote [of index_tally flaky_send first_vote "''hi''" "[''A'', ''B'', ''C'']"]
  by (simp add: steady_send_def flaky_send_def)

text \<open>
  Claim C6 as stated fails: with \<open>B\<close> timing out, \<open>A\<close> and \<open>C\<close> have proposed successfully,
  yet the operation raises after the proposals and neither of them is asked to vote.
\<close>

theorem voting_failed_proposal_counterexample:
  "successful_proposals flaky_send ''hi'' [''A'', ''B'', ''C''] = [''A: hi'', ''C: hi''] \<and>
   fst (VotingRouter_route index_tally flaky_send first_vote ''hi'' [''A'', ''B'', ''C'']) =
     [Send ''A'' ''hi'', Send ''B'' ''hi'', Send ''C'' ''hi''] \<and>
   snd (VotingRouter_route index_tally flaky_send first_vote ''hi'' [''A'', ''B'', ''C'']) =
     Inl (Raised ''timeout'')"
  by (simp add: VotingRouter_route_def successful_proposals_def flaky_send_def)

section \<open>Voting: the tally\<close>

text \<open>
  Claim C3. Whenever there are proposals the tally names a winner. The winner has at least
  as many votes as every other proposal, and among the proposals with as many votes as
  the winner it is the one whose author comes first in the endpoint ordering. The winner
  depends only on how many votes each proposal received: the same votes arriving in
  another order give the same winner.
\<close>

theorem tally_votes_winner:
  "proposals \<noteq> [] \<longrightarrow>
     (\<exists>w. tally_votes votes proposals = Some w \<and> w < length proposals \<and>
          (\<forall>j<length proposals. votes_for votes j \<le> votes_for votes w) \<and>
          (\<forall>j<length proposals. votes_for votes j = votes_for votes w \<longrightarrow> w \<le> j) \<and>
          (\<forall>votes'. mset votes' = mset votes \<longrightarrow> tally_votes votes' proposals = Some w))"
proof
  assume ne: "proposals \<noteq> []"
  let ?n = "length proposals"
  let ?w = "tally_scan votes 0 [1..<?n]"
  have pos: "insert 0 (set [1..<?n]) = {..<?n}" using ne by (intro positions) simp
  have srt: "sorted_wrt (<) (0 # [1..<?n])" by (simp add: sorted_wrt_upt)
  have "?w \<in> insert 0 (set [1..<?n])" by (rule tally_scan_member)
  then have 1: "?w < ?n" unfolding pos by simp
  have 2: "\<forall>j<?n. votes_for votes j \<le> votes_for votes ?w"
  proof (intro allI impI)
    fix j assume "j < ?n"
    then have "j \<in> insert 0 (set [1..<?n])" unfolding pos by simp
    then show "votes_for votes j \<le> votes_for votes ?w" by (rule tally_scan_max)
  qed
  have 3: "\<forall>j<?n. votes_for votes j = votes_for votes ?w \<longrightarrow> ?w \<le> j"
  proof (intro allI impI)
    fix j assume "j < ?n" and tie: "votes_for votes j = votes_for votes ?w"
    then have "j \<in> insert 0 (set [1..<?n])" unfolding pos by simp
    then show "?w \<le> j" using tie by (intro tally_scan_least [OF srt])
  qed
  have 4: "\<forall>votes'. mset votes' = mset votes \<longrightarrow> tally_votes votes' proposals = Some ?w"
  proof (intro allI impI)
    fix votes' assume "mset votes' = mset votes"
    then have "tally_scan votes' 0 [1..<?n] = ?w"
      by (intro tally_scan_cong votes_for_mset)
    then show "tally_votes votes' proposals = Some ?w" using ne by (simp add: tally_votes_def)
  qed
  have 0: "tally_votes votes proposals = Some ?w" using ne by (simp add: tally_votes_def)
  show "\<exists>w. tally_votes votes proposals = Some w \<and> w < ?n \<and>
          (\<forall>j<?n. votes_for votes j \<le> votes_for votes w) \<and>
          (\<forall>j<?n. votes_for votes j = votes_for votes w \<longrightarrow> w \<le> j) \<and>
          (\<forall>votes'. mset votes' = mset votes \<longrightarrow> tally_votes votes' proposals = Some w)"
    using 0 1 2 3 4 by blast
qed

text \<open>
  Two proposals with two votes each: the first endpoint's proposal wins, whatever the
  order in which the four votes arrive.
\<close>

theorem tally_votes_winner_witness:
  "tally_votes [0, 1, 1, 0] [''a'', ''b''] = Some 0 \<and>
   tally_votes [1, 1, 0, 0] [''a'', ''b''] = Some 0 \<and>
   votes_for [0, 1, 1, 0] 0 = votes_for [0, 1, 1, 0] 1"
proof -
  have here: "tally_votes [0, 1, 1, 0] [''a'', ''b''] = Some 0"
    by (simp add: tally_votes_def votes_for_def)
  have perm: "mset [1, 1, 0, 0::nat] = mset [0, 1, 1, 0]" by simp
  have ne: "[''a'', ''b''] \<noteq> []" by simp
  from tally_votes_winner [of "[''a'', ''b'']" "[0, 1, 1, 0]"] ne here perm
  have "tally_votes [1, 1, 0, 0] [''a'', ''b''] = Some 0" by auto
  with here show ?thesis by (simp add: votes_for_def)
qed

section \<open>The budget check\<close>

text \<open>
  Claim C5. In a session with a cost ceiling, a dispatch whose estimated cost added to the
  cumulative cost exceeds the ceiling is refused: the outcome is a failure event of kind
  \<open>budget_exceeded\<close> for that endpoint, and no call to the adapter is made.
\<close>

theorem budget_check_refuses:
  "limit = Some c \<and> c < spent + estimate_cost pricing deployment tk \<longrightarrow>
     dispatch_checked limit spent (estimate_cost pricing deployment tk) ident send endpoint text =
       ([], failure (ident endpoint) ''budget_exceeded'')"
  by (simp add: dispatch_checked_def over_budget_def)

text \<open>Ceiling 1.00, spent 0.95, and a thousand tokens at 0.10 per thousand.\<close>

theorem budget_check_refuses_witness:
  "estimate_cost sample_pricing ''gpt-4'' 1000 = 1 / 10 \<and>
   dispatch_checked (Some 1) (95 / 100) (estimate_cost sample_pricing ''gpt-4'' 1000) id steady_send ''A'' ''hi'' =
       ([], failure ''A'' ''budget_exceeded'')"
  using budget_check_refuses [of "Some 1" 1 "95 / 100" sample_pricing "''gpt-4''" 1000 id steady_send "''A''" "''hi''"]
  by (simp add: estimate_cost_def sample_pricing_def)

section \<open>The conversation history and the message list of the chat store\<close>

text \<open>
  Claim C8. Handling a message in the session manager leaves the earlier history in place
  and puts after it the inbound user message followed by the model responses in the order
  in which the router returned them. After any number of messages handled one after the
  other, the history is the earlier history followed by the contributions of the messages
  in arrival order. The browser's message list behaves alike: adding a message puts it
  last, and after any sequence of frames the earlier messages are an unchanged beginning
  of the list and the later ones are the user messages and model responses in the order
  in which their frames arrived.
\<close>

theorem history_append_only:
  "(sessions mgr sid = Some sess \<and> get_router (routing_pattern_mgr sess) = Inr route \<longrightarrow>
      map_option history (sessions (snd (send_message get_router upd mgr sid message)) sid) =
        Some (history sess @ UserMessage message #
              (case route message (models_mgr sess) of
                 Inl e \<Rightarrow> [] | Inr rs \<Rightarrow> map ModelResponse rs))) \<and>
   (sessions mgr sid = Some sess \<longrightarrow>
      map_option history (sessions (send_messages upd mgr sid turns) sid) =
        Some (history sess @ concat (map (turn_entries sess) turns))) \<and>
   messages (addMessage m st) = messages st @ [m] \<and>
   take (length (messages st)) (messages (receive_all st arrivals)) = messages st \<and>
   map (\<lambda>m. (role_msg m, content m)) (drop (length (messages st)) (messages (receive_all st arrivals))) =
     map (\<lambda>d. (author_of d, text_of d)) (filter carries_message (map (\<lambda>a. snd (snd a)) arrivals))"
proof (intro conjI impI)
  assume "sessions mgr sid = Some sess \<and> get_router (routing_pattern_mgr sess) = Inr route"
  then show "map_option history (sessions (snd (send_message get_router upd mgr sid message)) sid) =
        Some (history sess @ UserMessage message #
              (case route message (models_mgr sess) of
                 Inl e \<Rightarrow> [] | Inr rs \<Rightarrow> map ModelResponse rs))"
    by (simp add: send_message_session turn_entries_def)
next
  assume "sessions mgr sid = Some sess"
  then show "map_option history (sessions (send_messages upd mgr sid turns) sid) =
        Some (history sess @ concat (map (turn_entries sess) turns))"
    by (simp add: send_messages_session)
next
  show "messages (addMessage m st) = messages st @ [m]" by (simp add: addMessage_def)
next
  from receive_all_appends [of st arrivals] obtain new where new:
    "messages (receive_all st arrivals) = messages st @ new"
    "map (\<lambda>m. (role_msg m, content m)) new =
     map (\<lambda>d. (author_of d, text_of d)) (filter carries_message (map (\<lambda>a. snd (snd a)) arrivals))"
    by blast
  from new show "take (length (messages st)) (messages (receive_all st arrivals)) = messages st"
    by simp
  from new show "map (\<lambda>m. (role_msg m, content m)) (drop (length (messages st)) (messages (receive_all st arrivals))) =
     map (\<lambda>d. (author_of d, text_of d)) (filter carries_message (map (\<lambda>a. snd (snd a)) arrivals))"
    by simp
qed

text \<open>
  A session with endpoints \<open>A\<close> and \<open>B\<close>: one message answered by both, and three messages
  in a row of which the second meets a timeout and leaves only the user message.
\<close>

theorem history_append_only_witness:
  "map_option history (sessions (snd (send_message steady_broadcast count_usage two_model_manager ''s1'' ''hi'')) ''s1'') =
     Some [UserMessage ''hi'', ModelResponse ''A: hi'', ModelResponse ''B: hi''] \<and>
   map_option history (sessions (send_messages count_usage two_model_manager ''s1''
       [(steady_broadcast, ''hi''), (broadcast_only, ''more''), (steady_broadcast, ''bye'')]) ''s1'') =
     Some [UserMessage ''hi'', ModelResponse ''A: hi'', ModelResponse ''B: hi'',
           UserMessage ''more'',
           UserMessage ''bye'', ModelResponse ''A: bye'', ModelResponse ''B: bye'']"
proof -
  let ?sess = "\<lparr>id_mgr = ''s1'', routing_pattern_mgr = ''broadcast'',
                 models_mgr = [''A'', ''B''], history = []\<rparr> :: (string, string) Session_mgr"
  let ?route = "\<lambda>text ms. snd (BroadcastRouter_route id steady_send text ms)"
  have here: "sessions two_model_manager ''s1'' = Some ?sess"
    by (simp add: two_model_manager_def)
  have router: "steady_broadcast (routing_pattern_mgr ?sess) = Inr ?route"
    by (simp add: steady_broadcast_def)
  show ?thesis
    using here router
      history_append_only [of two_model_manager "''s1''" ?sess steady_broadcast ?route count_usage "''hi''"
        "[(steady_broadcast, ''hi''), (broadcast_only, ''more''), (steady_broadcast, ''bye'')]"]
    by (simp add: turn_entries_def steady_broadcast_def broadcast_only_def BroadcastRouter_route_def
        steady_send_def flaky_send_def)
qed

section \<open>Identifiers of the configured models\<close>

text \<open>
  Claim C9 fails on the form: a new model is named after the length of the list, so after
  a removal the next model can receive an identifier that is still in use. Adding two
  models, removing the first and adding a third leaves two models called \<open>model_2\<close>.
\<close>

theorem addModel_duplicate_identifier:
  "map id_cfg (models (setup_run initial_setup
      [SetCurrentModel (typed_model ''llama2''), AddModel,
       SetCurrentModel (typed_model ''codellama''), AddModel,
       RemoveModel ''model_1'',
       SetCurrentModel (typed_model ''mistral''), AddModel])) = [''model_2'', ''model_2'']"
  by (simp add: setup_run_def addModel_def removeModel_def setCurrentModel_def initial_setup_def
      typed_model_def blank_model_def string_of_nat.simps digit_char_def)

section \<open>Removing a model\<close>

text \<open>
  Claim C10. Removing by identifier leaves no entry with that identifier, keeps every
  other entry as it was and as often as it occurred, keeps the remaining entries in
  their order, and changes neither the routing pattern nor the model being typed.
\<close>

theorem removeModel_exact:
  "x \<notin> id_cfg ` set (models (removeModel x s)) \<and>
   mset (models (removeModel x s)) = filter_mset (\<lambda>m. id_cfg m \<noteq> x) (mset (models s)) \<and>
   subseq (models (removeModel x s)) (models s) \<and>
   routing (removeModel x s) = routing s \<and>
   currentModel (removeModel x s) = currentModel s"
  by (auto simp add: removeModel_def)

end
